theory Spec2Isabelle
  imports Main
begin

section \<open>Nexus Desktop: the bootstrap loader and the readiness logic of \<open>App\<close>\<close>

text \<open>
  The source is \<^verbatim>\<open>src/src/main.tsx\<close>: the module body of \<^verbatim>\<open>main.tsx\<close> (lines 1-23)
  and the component \<^verbatim>\<open>App\<close> (lines 30-134). \<^verbatim>\<open>App\<close> runs on the browser's event loop:
  its effect arms timers and starts the asynchronous function \<^verbatim>\<open>init\<close>, and everything
  else happens in callbacks. The embedding makes that explicit. Time is counted in
  milliseconds since the effect ran. A run is decided by an environment (what the host
  and the store do: whether the bridge is there, when each promise settles, when React
  tears the effect down, when the user clicks), and \<open>run env t\<close> is the state of the
  component once every callback due up to millisecond \<open>t\<close> has run.

  A run is one execution of the effect, started from the initial state of the component
  (\<^verbatim>\<open>useState(true)\<close>). The two functions of the store that \<^verbatim>\<open>App\<close> calls,
  \<^verbatim>\<open>initializeTauriListeners\<close> and \<^verbatim>\<open>checkNexusStatus\<close>, are not among the sources: when
  and how their promises settle is part of the environment; what the store does to the
  status is modelled from the spec. The state setter takes
  effect whenever it is called, also after the teardown.
\<close>

subsection \<open>Data\<close>

type_synonym time = nat

text \<open>
  Modelled from the spec: the type of \<^verbatim>\<open>backend.status\<close> is declared in
  \<^verbatim>\<open>./store/useNexusStore\<close>, which is not among the sources. The spec gives
  BackendStatus as the enumeration Unknown, Connected, Disconnected, Error, and Unknown
  as its value while no status check has completed. \<^verbatim>\<open>App\<close> compares the field with
  the literals \<^verbatim>\<open>'disconnected'\<close> and \<^verbatim>\<open>'error'\<close>.
\<close>

datatype backend_status = Unknown | Connected | Disconnected | Error

text \<open>
  How the promise of \<^verbatim>\<open>initializeTauriListeners()\<close> behaves: the call throws before
  returning a promise, or the promise is fulfilled or rejected so many milliseconds after
  the call, or it never settles.
\<close>

datatype outcome = Throws | Resolves time | Rejects time | Never

datatype failure = AsDisconnected | AsError

text \<open>
  How one call of \<^verbatim>\<open>checkNexusStatus()\<close> behaves: its promise is fulfilled or rejected
  so many milliseconds after the call, or never settles. (The source calls \<^verbatim>\<open>.catch\<close>
  on the result, so the function returns a promise.)
\<close>

datatype query_outcome = QResolves time | QRejects time failure | QNever

datatype settled = Fulfilled | Rejected failure

text \<open>The three places of \<^verbatim>\<open>App\<close> that call \<^verbatim>\<open>checkNexusStatus\<close>: line 65, line 89, line 123.\<close>

datatype caller = FromInit | FromPoll | FromRetry

datatype level = Log | Warn | Err

datatype timer = ForceShowUI | StatusTimeout

text \<open>What the component does that can be observed from outside, in the order it does it.\<close>

datatype action =
    Console level string
  | SetTimeout timer time
  | ClearTimeout timer
  | SetInterval time
  | ClearInterval
  | SetIsInitializing bool
  | InitializeTauriListeners
  | CheckNexusStatus caller
  | UnhandledRejection caller

text \<open>Where the asynchronous function \<^verbatim>\<open>init\<close> is suspended.\<close>

datatype init_pc = NotStarted | AwaitListeners | AwaitRace | Returned

record env =
  window_defined :: bool
  tauri :: bool
  listeners :: outcome
  status_query :: "caller \<Rightarrow> time \<Rightarrow> query_outcome"
  unresolved_as :: failure
  teardown :: "time option"
  clicked :: "time \<Rightarrow> bool"

text \<open>
  \<open>window_defined\<close> is \<^verbatim>\<open>typeof window !== 'undefined'\<close>, \<open>tauri\<close> is the truth value of
  \<^verbatim>\<open>window.__TAURI__\<close>. \<open>status_query env c t\<close> is the behaviour of the call of
  \<^verbatim>\<open>checkNexusStatus\<close> that caller \<open>c\<close> makes at time \<open>t\<close>. \<open>unresolved_as\<close> says
  which of Disconnected and Error the store gives the status of an attempt that has
  not completed. \<open>teardown\<close> is the time at
  which React calls the cleanup function the effect returned, if it ever does.
  \<open>clicked env t\<close> says that the user clicks where the Retry button is at time \<open>t\<close>.
\<close>

record app =
  isInitializing :: bool
  backend :: backend_status
  forceShowUI :: "time option"
  interval :: "time option"
  status_timeout :: "time option"
  init_pc :: init_pc
  pending :: "(time \<times> caller \<times> settled) list"
  trace :: "(time \<times> action) list"

text \<open>
  \<open>isInitializing\<close> is the state of \<^verbatim>\<open>useState(true)\<close>; \<open>backend\<close> is the store's
  \<^verbatim>\<open>backend.status\<close>; \<open>forceShowUI\<close>, \<open>interval\<close> and \<open>status_timeout\<close> hold the time
  at which the timer of line 41, the interval of line 88 and the timer of line 67 fire
  next (\<open>None\<close>: not armed, fired or cleared); \<open>pending\<close> are the calls of
  \<^verbatim>\<open>checkNexusStatus\<close> in flight, each with the time at which its promise settles.
\<close>

definition app_init :: app where
  "app_init = \<lparr> isInitializing = True, backend = Unknown, forceShowUI = None,
     interval = None, status_timeout = None, init_pc = NotStarted, pending = [],
     trace = [] \<rparr>"

subsection \<open>Rendering (lines 97-133)\<close>

datatype element = Spinner | ConnectionWarning | MainLayout

definition showConnectionWarning :: "app \<Rightarrow> bool" where
  "showConnectionWarning s = (backend s = Disconnected \<or> backend s = Error)"

text \<open>
  \<open>ConnectionWarning\<close> is the banner of lines 115-129, which holds the Retry button;
  the returned list is the children of the outer element in order.
\<close>

definition render :: "app \<Rightarrow> element list" where
  "render s =
     (if isInitializing s then [Spinner]
      else (if showConnectionWarning s then [ConnectionWarning] else []) @ [MainLayout])"

subsection \<open>The effect and its callbacks (lines 37-95)\<close>

definition emit :: "time \<Rightarrow> action \<Rightarrow> app \<Rightarrow> app" where
  "emit t a s = s\<lparr>trace := trace s @ [(t, a)]\<rparr>"

definition setIsInitializing :: "time \<Rightarrow> bool \<Rightarrow> app \<Rightarrow> app" where
  "setIsInitializing t b s = emit t (SetIsInitializing b) (s\<lparr>isInitializing := b\<rparr>)"

definition clearTimeout_forceShowUI :: "time \<Rightarrow> app \<Rightarrow> app" where
  "clearTimeout_forceShowUI t s = emit t (ClearTimeout ForceShowUI) (s\<lparr>forceShowUI := None\<rparr>)"

text \<open>The status that stands for each kind of failure.\<close>

fun failure_status :: "failure \<Rightarrow> backend_status" where
  "failure_status AsDisconnected = Disconnected"
| "failure_status AsError = Error"

text \<open>
  Modelled from the spec: \<^verbatim>\<open>checkNexusStatus\<close> is a function of the store, which is not
  among the sources. The spec: BackendStatus is "mutated by every status-check attempt
  (success sets Connected; failure/timeout sets Disconnected or Error; no attempt yet
  leaves Unknown)", and a status query that never resolves gives
  "BackendStatus=Error/Disconnected". So the start of an attempt gives the status the
  Disconnected or Error value that it keeps when the attempt times out or never
  completes, and records the query and the time at which its promise will settle.
\<close>

definition checkNexusStatus :: "env \<Rightarrow> time \<Rightarrow> caller \<Rightarrow> app \<Rightarrow> app" where
  "checkNexusStatus e t c s =
     (let s' = emit t (CheckNexusStatus c)
                 (s\<lparr>backend := failure_status (unresolved_as e)\<rparr>) in
      case status_query e c t of
        QResolves d \<Rightarrow> s'\<lparr>pending := pending s' @ [(t + d, c, Fulfilled)]\<rparr>
      | QRejects d f \<Rightarrow> s'\<lparr>pending := pending s' @ [(t + d, c, Rejected f)]\<rparr>
      | QNever \<Rightarrow> s')"

text \<open>
  Modelled from the spec: what the store, which is not among the sources, does to the
  status when a query completes. The spec: "performs one backend status query, updating
  BackendStatus on completion"; "success sets Connected; failure/timeout sets
  Disconnected or Error". An attempt that times out or never completes does not get
  here: its status is the one \<open>checkNexusStatus\<close> gave it at the start.
\<close>

definition store_update :: "settled \<Rightarrow> app \<Rightarrow> app" where
  "store_update r s =
     (case r of
        Fulfilled \<Rightarrow> s\<lparr>backend := Connected\<rparr>
      | Rejected f \<Rightarrow> s\<lparr>backend := failure_status f\<rparr>)"

text \<open>Lines 78-82, the \<^verbatim>\<open>finally\<close> block of \<^verbatim>\<open>init\<close>; the function has returned after it.\<close>

definition init_finally :: "time \<Rightarrow> app \<Rightarrow> app" where
  "init_finally t s =
     (setIsInitializing t False
        (clearTimeout_forceShowUI t
           (emit t (Console Log ''[App] Initialization complete, showing UI'') s)))
     \<lparr>init_pc := Returned\<rparr>"

text \<open>Lines 76-77 and then the \<^verbatim>\<open>finally\<close> block: the outer \<^verbatim>\<open>catch\<close>.\<close>

definition init_catch :: "time \<Rightarrow> app \<Rightarrow> app" where
  "init_catch t s = init_finally t (emit t (Console Err ''[App] Failed to initialize:'') s)"

text \<open>
  Lines 48-60: \<^verbatim>\<open>init\<close> up to its first \<^verbatim>\<open>await\<close>. The \<^verbatim>\<open>return\<close> of line 56 is inside
  the \<^verbatim>\<open>try\<close>, so the \<^verbatim>\<open>finally\<close> block runs after it.
\<close>

definition init_begin :: "env \<Rightarrow> time \<Rightarrow> app \<Rightarrow> app" where
  "init_begin e t s =
     (let s1 = emit t (Console Log ''[App] Starting initialization...'') s in
      if window_defined e \<and> \<not> tauri e then
        init_finally t
          (clearTimeout_forceShowUI t
             (setIsInitializing t False
                (emit t (Console Err ''[App] Tauri runtime not available!'') s1)))
      else
        (let s2 = emit t InitializeTauriListeners
                    (emit t (Console Log ''[App] Tauri runtime detected'') s1) in
         if listeners e = Throws then init_catch t s2
         else s2\<lparr>init_pc := AwaitListeners\<rparr>))"

text \<open>Lines 38-94: the body of the effect, run at time 0.\<close>

definition useEffect :: "env \<Rightarrow> app \<Rightarrow> app" where
  "useEffect e s =
     (let s1 = emit 0 (Console Log ''[App] useEffect triggered'') s;
          s2 = emit 0 (SetTimeout ForceShowUI 3000) (s1\<lparr>forceShowUI := Some 3000\<rparr>);
          s3 = init_begin e 0 s2
      in emit 0 (SetInterval 10000) (s3\<lparr>interval := Some 10000\<rparr>))"

text \<open>Line 94: the cleanup function, called by React at the time the environment gives.\<close>

definition cleanup :: "time \<Rightarrow> app \<Rightarrow> app" where
  "cleanup t s = emit t ClearInterval (s\<lparr>interval := None\<rparr>)"

definition teardown_phase :: "env \<Rightarrow> time \<Rightarrow> app \<Rightarrow> app" where
  "teardown_phase e t s = (if teardown e = Some t then cleanup t s else s)"

text \<open>Lines 41-44: the callback of the timer \<^verbatim>\<open>forceShowUI\<close>.\<close>

definition forceShowUI_fires :: "time \<Rightarrow> app \<Rightarrow> app" where
  "forceShowUI_fires t s =
     setIsInitializing t False
       (emit t (Console Warn ''[App] Force showing UI after 3 seconds'') s)"

definition deadline_phase :: "time \<Rightarrow> app \<Rightarrow> app" where
  "deadline_phase t s =
     (if forceShowUI s = Some t then forceShowUI_fires t (s\<lparr>forceShowUI := None\<rparr>) else s)"

text \<open>Lines 88-92: the callback of the interval, which stays armed for the next period.\<close>

definition poll_phase :: "env \<Rightarrow> time \<Rightarrow> app \<Rightarrow> app" where
  "poll_phase e t s =
     (if interval s = Some t
      then (checkNexusStatus e t FromPoll s)\<lparr>interval := Some (t + 10000)\<rparr>
      else s)"

text \<open>
  Lines 70-75 and the \<^verbatim>\<open>finally\<close> block: \<^verbatim>\<open>init\<close> resumes after the race. When the race
  is rejected the inner \<^verbatim>\<open>catch\<close> logs a warning; nothing here touches the store.
\<close>

definition race_fulfilled :: "time \<Rightarrow> app \<Rightarrow> app" where
  "race_fulfilled t s = init_finally t (emit t (Console Log ''[App] Status check completed'') s)"

definition race_rejected :: "time \<Rightarrow> app \<Rightarrow> app" where
  "race_rejected t s =
     init_finally t (emit t (Console Warn ''[App] Status check failed or timed out:'') s)"

text \<open>
  Line 67: the callback of the 2000 ms timer rejects \<^verbatim>\<open>timeoutPromise\<close>. The timer is
  never cleared; when the race is already settled the rejection has no effect
  (\<^verbatim>\<open>Promise.race\<close> has subscribed to the promise, so it is not unhandled).
\<close>

definition timeout_phase :: "time \<Rightarrow> app \<Rightarrow> app" where
  "timeout_phase t s =
     (if status_timeout s = Some t then
        (let s' = s\<lparr>status_timeout := None\<rparr> in
         if init_pc s' = AwaitRace then race_rejected t s' else s')
      else s)"

text \<open>Lines 61-70: \<^verbatim>\<open>init\<close> resumes after line 60 and suspends at the race.\<close>

definition start_race :: "env \<Rightarrow> time \<Rightarrow> app \<Rightarrow> app" where
  "start_race e t s =
     (let s1 = emit t (Console Log ''[App] Tauri listeners initialized'') s;
          s2 = checkNexusStatus e t FromInit s1;
          s3 = emit t (SetTimeout StatusTimeout 2000) (s2\<lparr>status_timeout := Some (t + 2000)\<rparr>)
      in s3\<lparr>init_pc := AwaitRace\<rparr>)"

text \<open>The promise awaited at line 60 settles (the call was made at time 0).\<close>

definition listeners_phase :: "env \<Rightarrow> time \<Rightarrow> app \<Rightarrow> app" where
  "listeners_phase e t s =
     (if init_pc s = AwaitListeners then
        (case listeners e of
           Resolves d \<Rightarrow> if d = t then start_race e t s else s
         | Rejects d \<Rightarrow> if d = t then init_catch t s else s
         | Throws \<Rightarrow> s
         | Never \<Rightarrow> s)
      else s)"

text \<open>Line 123: the handler of the Retry button, which exists only while it is rendered.\<close>

definition click_phase :: "env \<Rightarrow> time \<Rightarrow> app \<Rightarrow> app" where
  "click_phase e t s =
     (if clicked e t \<and> ConnectionWarning \<in> set (render s)
      then checkNexusStatus e t FromRetry s else s)"

text \<open>
  The promise of one call of \<^verbatim>\<open>checkNexusStatus\<close> settles: the store updates the status,
  then the reactions the caller attached run. Line 70 (\<open>FromInit\<close>): \<^verbatim>\<open>init\<close> resumes if
  it still waits for the race. Lines 89-91 (\<open>FromPoll\<close>): \<^verbatim>\<open>.catch\<close> logs a rejection.
  Line 123 (\<open>FromRetry\<close>): nothing is attached, so a rejection is unhandled.
\<close>

definition settle_one :: "time \<Rightarrow> caller \<times> settled \<Rightarrow> app \<Rightarrow> app" where
  "settle_one t cr s =
     (let s1 = store_update (snd cr) s in
      case fst cr of
        FromInit \<Rightarrow>
          if init_pc s1 = AwaitRace then
            (case snd cr of Fulfilled \<Rightarrow> race_fulfilled t s1 | Rejected f \<Rightarrow> race_rejected t s1)
          else s1
      | FromPoll \<Rightarrow>
          (case snd cr of
             Fulfilled \<Rightarrow> s1
           | Rejected f \<Rightarrow> emit t (Console Err ''[App] Status check failed:'') s1)
      | FromRetry \<Rightarrow>
          (case snd cr of
             Fulfilled \<Rightarrow> s1
           | Rejected f \<Rightarrow> emit t (UnhandledRejection FromRetry) s1))"

definition settle_phase :: "time \<Rightarrow> app \<Rightarrow> app" where
  "settle_phase t s =
     fold (settle_one t) (map snd (filter (\<lambda>p. fst p = t) (pending s)))
       (s\<lparr>pending := filter (\<lambda>p. fst p \<noteq> t) (pending s)\<rparr>)"

text \<open>
  Everything that happens in millisecond \<open>t\<close>. The cleanup function comes first when
  React calls it in this millisecond. Timers due in the same millisecond fire in the
  order in which they were armed (\<^verbatim>\<open>forceShowUI\<close>, the interval, the status timeout);
  promises settle after them, so that a promise which settles 0 ms after its call is
  handled in the millisecond of the call.
\<close>

definition tick :: "env \<Rightarrow> time \<Rightarrow> app \<Rightarrow> app" where
  "tick e t s =
     settle_phase t
       (click_phase e t
          (listeners_phase e t
             (timeout_phase t
                (poll_phase e t
                   (deadline_phase t
                      (teardown_phase e t s))))))"

primrec run :: "env \<Rightarrow> time \<Rightarrow> app" where
  "run e 0 = tick e 0 (useEffect e app_init)"
| "run e (Suc t) = tick e (Suc t) (run e t)"

subsection \<open>The bootstrap loader (\<^verbatim>\<open>main.tsx\<close>, lines 1-23)\<close>

datatype 'el boot_action =
    BootConsole level string
  | GetElementById string
  | CreateRootRender 'el

text \<open>
  \<open>document\<close> is the host's page: the element with a given id, if there is one. The
  result is what the module body does, in order.
\<close>

definition main_tsx :: "(string \<Rightarrow> 'el option) \<Rightarrow> 'el boot_action list" where
  "main_tsx document =
     [BootConsole Log ''[main.tsx] Loading main.tsx'',
      BootConsole Log ''[main.tsx] Imports complete'',
      BootConsole Log ''[main.tsx] Tauri available:'',
      GetElementById ''root'',
      BootConsole Log ''[main.tsx] Root element:''] @
     (case document ''root'' of
        Some rootElement \<Rightarrow>
          [CreateRootRender rootElement, BootConsole Log ''[main.tsx] React render initiated'']
      | None \<Rightarrow> [BootConsole Err ''[main.tsx] Root element not found!''])"

subsection \<open>Observations on runs\<close>

text \<open>The elements rendered, the ids looked up and the errors reported by the bootstrap.\<close>

fun rendered :: "'el boot_action \<Rightarrow> 'el list" where
  "rendered (CreateRootRender el) = [el]"
| "rendered a = []"

fun lookups :: "'el boot_action \<Rightarrow> string list" where
  "lookups (GetElementById i) = [i]"
| "lookups a = []"

fun diagnostics :: "'el boot_action \<Rightarrow> string list" where
  "diagnostics (BootConsole Err m) = [m]"
| "diagnostics a = []"

text \<open>The times at which the interval callback has called \<^verbatim>\<open>checkNexusStatus\<close>.\<close>

definition poll_times :: "app \<Rightarrow> time list" where
  "poll_times s = map fst (filter (\<lambda>x. snd x = CheckNexusStatus FromPoll) (trace s))"

text \<open>The cleanup function has not been called by the end of millisecond \<open>t\<close>.\<close>

definition live :: "env \<Rightarrow> time \<Rightarrow> bool" where
  "live e t = (case teardown e of None \<Rightarrow> True | Some d \<Rightarrow> t < d)"

text \<open>While the spinner shows, the timer \<^verbatim>\<open>forceShowUI\<close> is pending and due at 3000 ms.\<close>

definition armed :: "app \<Rightarrow> bool" where
  "armed s = (isInitializing s \<longrightarrow> forceShowUI s = Some 3000)"


text \<open>The time at which the interval fires next when it has been running since time 0.\<close>

definition next_due :: "nat \<Rightarrow> nat" where
  "next_due t = 10000 * (t div 10000 + 1)"

text \<open>\<^verbatim>\<open>init\<close> has returned, or waits for a registration that will not be fulfilled.\<close>

definition never_races :: "env \<Rightarrow> app \<Rightarrow> bool" where
  "never_races e s =
     (init_pc s = Returned \<or>
      (init_pc s = AwaitListeners \<and> (case listeners e of Resolves d \<Rightarrow> False | _ \<Rightarrow> True)))"

text \<open>\<^verbatim>\<open>init\<close> has not called \<^verbatim>\<open>checkNexusStatus\<close> and never will.\<close>

definition no_init_query :: "env \<Rightarrow> app \<Rightarrow> bool" where
  "no_init_query e s = (never_races e s \<and> CheckNexusStatus FromInit \<notin> snd ` set (trace s))"

text \<open>No status query has been made and the status is as it was at the start.\<close>

definition untouched :: "app \<Rightarrow> bool" where
  "untouched s =
     (backend s = Unknown \<and> pending s = [] \<and>
      (\<forall>c. CheckNexusStatus c \<notin> snd ` set (trace s)))"




text \<open>The time at which a failing listener registration fails.\<close>

definition failed_at :: "outcome \<Rightarrow> time" where
  "failed_at l = (case l of Rejects d \<Rightarrow> d | _ \<Rightarrow> 0)"

subsection \<open>Example environments\<close>

text \<open>The bridge is there, listener registration never settles, no query ever settles.\<close>

definition env_never :: env where
  "env_never = \<lparr> window_defined = True, tauri = True, listeners = Never,
     status_query = (\<lambda>c t. QNever), unresolved_as = AsDisconnected,
     teardown = None, clicked = (\<lambda>t. False) \<rparr>"

text \<open>The bridge is absent; every status query is rejected at once.\<close>

definition env_absent :: env where
  "env_absent = \<lparr> window_defined = True, tauri = False, listeners = Never,
     status_query = (\<lambda>c t. QRejects 0 AsError), unresolved_as = AsDisconnected,
     teardown = None, clicked = (\<lambda>t. False) \<rparr>"

text \<open>
  Registration succeeds at once, every status query is rejected at once, and the user
  clicks at 1 ms.
\<close>

definition env_retry :: env where
  "env_retry = \<lparr> window_defined = True, tauri = True, listeners = Resolves 0,
     status_query = (\<lambda>c t. QRejects 0 AsError), unresolved_as = AsDisconnected,
     teardown = None, clicked = (\<lambda>t. t = 1) \<rparr>"

text \<open>The bridge is there and listener registration throws.\<close>

definition env_throws :: env where
  "env_throws = \<lparr> window_defined = True, tauri = True, listeners = Throws,
     status_query = (\<lambda>c t. QResolves 0), unresolved_as = AsDisconnected,
     teardown = None, clicked = (\<lambda>t. False) \<rparr>"



text \<open>As \<open>env_never\<close>, with the effect torn down at 25000 ms.\<close>

definition env_torn :: env where
  "env_torn = \<lparr> window_defined = True, tauri = True, listeners = Never,
     status_query = (\<lambda>c t. QNever), unresolved_as = AsDisconnected,
     teardown = Some 25000, clicked = (\<lambda>t. False) \<rparr>"

text \<open>As \<open>env_never\<close>, with the effect torn down right after it ran.\<close>

definition env_strict :: env where
  "env_strict = \<lparr> window_defined = True, tauri = True, listeners = Never,
     status_query = (\<lambda>c t. QNever), unresolved_as = AsDisconnected,
     teardown = Some 0, clicked = (\<lambda>t. False) \<rparr>"

text \<open>Registration is rejected after 700 ms; the effect is torn down right after it ran.\<close>

definition env_rejects :: env where
  "env_rejects = \<lparr> window_defined = True, tauri = True, listeners = Rejects 700,
     status_query = (\<lambda>c t. QResolves 0), unresolved_as = AsDisconnected,
     teardown = Some 0, clicked = (\<lambda>t. False) \<rparr>"

section \<open>Properties\<close>

lemmas basic_defs = emit_def setIsInitializing_def clearTimeout_forceShowUI_def
  checkNexusStatus_def store_update_def init_finally_def init_catch_def
  race_fulfilled_def race_rejected_def forceShowUI_fires_def cleanup_def start_race_def

lemmas phase_defs = teardown_phase_def deadline_phase_def poll_phase_def timeout_phase_def
  listeners_phase_def click_phase_def settle_one_def init_begin_def useEffect_def

lemmas all_splits = outcome.splits query_outcome.splits caller.splits settled.splits
  failure.splits

subsection \<open>Rules for reasoning phase by phase\<close>

lemma fold_preserves:
  assumes "\<And>x s. Q s \<Longrightarrow> Q (f x s)" and "Q s"
  shows "Q (fold f xs s)"
  using assms(2) by (induction xs arbitrary: s) (simp_all add: assms(1))

lemma settle_phase_preserves:
  assumes "\<And>cr s. Q s \<Longrightarrow> Q (settle_one t cr s)"
    and "\<And>s ps. Q s \<Longrightarrow> Q (s\<lparr>pending := ps\<rparr>)"
    and "Q s"
  shows "Q (settle_phase t s)"
  unfolding settle_phase_def
  by (rule fold_preserves) (simp_all add: assms)

lemma tick_chain:
  assumes "P0 s"
    and "\<And>s. P0 s \<Longrightarrow> P1 (teardown_phase e t s)"
    and "\<And>s. P1 s \<Longrightarrow> P2 (deadline_phase t s)"
    and "\<And>s. P2 s \<Longrightarrow> P3 (poll_phase e t s)"
    and "\<And>s. P3 s \<Longrightarrow> P4 (timeout_phase t s)"
    and "\<And>s. P4 s \<Longrightarrow> P5 (listeners_phase e t s)"
    and "\<And>s. P5 s \<Longrightarrow> P6 (click_phase e t s)"
    and "\<And>s. P6 s \<Longrightarrow> P7 (settle_phase t s)"
  shows "P7 (tick e t s)"
  unfolding tick_def
  by (intro assms(8) assms(7) assms(6) assms(5) assms(4) assms(3) assms(2) assms(1))

lemma tick_preserves:
  assumes "Q s"
    and "\<And>s. Q s \<Longrightarrow> Q (teardown_phase e t s)"
    and "\<And>s. Q s \<Longrightarrow> Q (deadline_phase t s)"
    and "\<And>s. Q s \<Longrightarrow> Q (poll_phase e t s)"
    and "\<And>s. Q s \<Longrightarrow> Q (timeout_phase t s)"
    and "\<And>s. Q s \<Longrightarrow> Q (listeners_phase e t s)"
    and "\<And>s. Q s \<Longrightarrow> Q (click_phase e t s)"
    and "\<And>cr s. Q s \<Longrightarrow> Q (settle_one t cr s)"
    and "\<And>s ps. Q s \<Longrightarrow> Q (s\<lparr>pending := ps\<rparr>)"
  shows "Q (tick e t s)"
proof (rule tick_chain [where ?P0.0 = Q and ?P1.0 = Q and ?P2.0 = Q and ?P3.0 = Q
      and ?P4.0 = Q and ?P5.0 = Q and ?P6.0 = Q])
  show "\<And>s. Q s \<Longrightarrow> Q (settle_phase t s)"
    by (rule settle_phase_preserves) (simp_all add: assms)
qed (simp_all add: assms)

subsection \<open>Readiness\<close>

lemma ready_tick: "\<not> isInitializing s \<Longrightarrow> \<not> isInitializing (tick e t s)"
  by (rule tick_preserves [where Q = "\<lambda>s. \<not> isInitializing s"])
    (simp_all add: phase_defs basic_defs Let_def split: all_splits)

lemma ready_mono: "\<not> isInitializing (run e t) \<Longrightarrow> \<not> isInitializing (run e (t + k))"
  by (induction k) (simp_all add: ready_tick)

lemma armed_tick: "armed s \<Longrightarrow> armed (tick e t s)"
  by (rule tick_preserves [where Q = armed])
    (simp_all add: armed_def phase_defs basic_defs Let_def split: all_splits)

lemma armed_start: "armed (useEffect e app_init)"
  by (simp add: armed_def phase_defs basic_defs Let_def app_init_def)

lemma armed_run: "armed (run e t)"
  by (induction t) (simp_all add: armed_tick armed_start)

lemma deadline_tick: "armed s \<Longrightarrow> \<not> isInitializing (tick e 3000 s)"
proof (rule tick_chain [where ?P0.0 = armed and ?P1.0 = armed
      and ?P2.0 = "\<lambda>s. \<not> isInitializing s" and ?P3.0 = "\<lambda>s. \<not> isInitializing s"
      and ?P4.0 = "\<lambda>s. \<not> isInitializing s" and ?P5.0 = "\<lambda>s. \<not> isInitializing s"
      and ?P6.0 = "\<lambda>s. \<not> isInitializing s"])
  show "\<And>s. \<not> isInitializing s \<Longrightarrow> \<not> isInitializing (settle_phase 3000 s)"
    by (rule settle_phase_preserves)
      (simp_all add: phase_defs basic_defs Let_def split: all_splits)
qed (auto simp add: armed_def phase_defs basic_defs Let_def split: all_splits)

lemma ready_at_deadline: "\<not> isInitializing (run e 3000)"
proof -
  have "run e 3000 = tick e 3000 (run e 2999)"
    using run.simps(2) [of e 2999] by simp
  then show ?thesis by (simp add: deadline_tick armed_run)
qed

lemma ready_after_deadline: "3000 \<le> t \<Longrightarrow> \<not> isInitializing (run e t)"
  using ready_mono [OF ready_at_deadline, of e "t - 3000"] by simp

lemma ready_from: "\<not> isInitializing (run e t) \<Longrightarrow> t \<le> t' \<Longrightarrow> \<not> isInitializing (run e t')"
  using ready_mono [of e t "t' - t"] by simp

lemma ready_threshold: "\<exists>t0\<le>3000. \<forall>t. isInitializing (run e t) = (t < t0)"
proof -
  define t0 where "t0 = (LEAST t. \<not> isInitializing (run e t))"
  have a: "\<not> isInitializing (run e t0)"
    unfolding t0_def by (rule LeastI [of _ 3000]) (rule ready_at_deadline)
  have b: "t0 \<le> 3000"
    unfolding t0_def by (rule Least_le) (rule ready_at_deadline)
  have "isInitializing (run e t) = (t < t0)" for t
  proof
    assume "isInitializing (run e t)"
    then show "t < t0" using ready_from [OF a, of t] by (cases "t < t0") auto
  next
    assume "t < t0"
    then show "isInitializing (run e t)"
      unfolding t0_def using not_less_Least by blast
  qed
  with b show ?thesis by blast
qed

subsection \<open>The trace\<close>

lemma trace_tick: "x \<in> set (trace s) \<Longrightarrow> x \<in> set (trace (tick e t s))"
  by (rule tick_preserves [where Q = "\<lambda>s. x \<in> set (trace s)"])
    (simp_all add: phase_defs basic_defs Let_def split: all_splits)

lemma trace_mono: "x \<in> set (trace (run e t)) \<Longrightarrow> x \<in> set (trace (run e (t + k)))"
  by (induction k) (simp_all add: trace_tick)

lemma trace_from: "x \<in> set (trace (run e t)) \<Longrightarrow> t \<le> t' \<Longrightarrow> x \<in> set (trace (run e t'))"
  using trace_mono [of x e t "t' - t"] by simp

lemma setter_false_tick:
  "SetIsInitializing True \<notin> snd ` set (trace s) \<Longrightarrow>
   SetIsInitializing True \<notin> snd ` set (trace (tick e t s))"
  by (rule tick_preserves [where Q = "\<lambda>s. SetIsInitializing True \<notin> snd ` set (trace s)"])
    (simp_all add: phase_defs basic_defs Let_def split: all_splits)

lemma setter_false_run: "SetIsInitializing True \<notin> snd ` set (trace (run e t))"
  by (induction t)
    (simp_all add: setter_false_tick, rule setter_false_tick,
      simp add: phase_defs basic_defs Let_def app_init_def)

lemma flip_tick:
  "isInitializing s \<or> (t, SetIsInitializing False) \<in> set (trace s) \<Longrightarrow>
   isInitializing (tick e t s) \<or> (t, SetIsInitializing False) \<in> set (trace (tick e t s))"
  by (rule tick_preserves
      [where Q = "\<lambda>s. isInitializing s \<or> (t, SetIsInitializing False) \<in> set (trace s)"])
    (auto simp add: phase_defs basic_defs Let_def split: all_splits)


lemma run_0_env_never:
  "isInitializing (run env_never 0) \<and> forceShowUI (run env_never 0) = Some 3000"
  by (simp add: env_never_def tick_def settle_phase_def phase_defs basic_defs Let_def
      app_init_def render_def)

subsection \<open>The polling interval\<close>

lemma poll_frame_settle_one:
  "interval (settle_one t cr s) = interval s \<and> poll_times (settle_one t cr s) = poll_times s"
  by (simp add: poll_times_def phase_defs basic_defs Let_def split: all_splits)

lemma tick_poll:
  "interval (tick e t s) =
     (if teardown e = Some t then None
      else if interval s = Some t then Some (t + 10000) else interval s) \<and>
   poll_times (tick e t s) =
     poll_times s @ (if teardown e \<noteq> Some t \<and> interval s = Some t then [t] else [])"
  (is "?goal (tick e t s)")
proof (rule tick_chain [where
      ?P0.0 = "\<lambda>s'. interval s' = interval s \<and> poll_times s' = poll_times s"
      and ?P1.0 = "\<lambda>s'. interval s' = (if teardown e = Some t then None else interval s) \<and>
                 poll_times s' = poll_times s"
      and ?P2.0 = "\<lambda>s'. interval s' = (if teardown e = Some t then None else interval s) \<and>
                 poll_times s' = poll_times s"
      and ?P3.0 = ?goal and ?P4.0 = ?goal and ?P5.0 = ?goal and ?P6.0 = ?goal])
  show "\<And>s'. ?goal s' \<Longrightarrow> ?goal (settle_phase t s')"
    by (rule settle_phase_preserves)
      (simp_all add: poll_frame_settle_one, simp_all add: poll_times_def)
qed (simp_all add: poll_times_def phase_defs basic_defs Let_def split: all_splits)

lemma live_Suc: "live e (Suc t) = (live e t \<and> teardown e \<noteq> Some (Suc t))"
  by (auto simp add: live_def split: option.splits)

lemma live_0: "live e 0 = (teardown e \<noteq> Some 0)"
  by (auto simp add: live_def split: option.splits)

lemma next_gen_hit: "0 < n \<Longrightarrow> (n * (t div n + 1) = Suc t) = (n dvd Suc t)" for n t :: nat
proof
  assume "n * (t div n + 1) = Suc t"
  then show "n dvd Suc t" by (metis dvd_triv_left)
next
  assume n: "0 < n" and d: "n dvd Suc t"
  then have "Suc t div n = Suc (t div n)" by (simp add: div_Suc)
  moreover have "n * (Suc t div n) = Suc t" using d by simp
  ultimately show "n * (t div n + 1) = Suc t" by simp
qed

lemma next_gen_Suc:
  "0 < n \<Longrightarrow> n * (Suc t div n + 1) = (if n dvd Suc t then Suc t + n else n * (t div n + 1))"
  for n t :: nat
proof (cases "n dvd Suc t")
  case True
  assume "0 < n"
  have "n * (Suc t div n) = Suc t" using True by simp
  then have "n * (Suc t div n + 1) = Suc t + n" by (simp add: algebra_simps)
  with True show ?thesis by simp
next
  case False
  then have "Suc t div n = t div n" by (simp add: div_Suc mod_eq_0_iff_dvd)
  with False show ?thesis by simp
qed

lemma next_due_0: "next_due 0 = 10000"
  by (simp add: next_due_def)

lemma next_due_hit: "(next_due t = Suc t) = (10000 dvd Suc t)"
  unfolding next_due_def by (rule next_gen_hit) simp

lemma next_due_Suc:
  "next_due (Suc t) = (if 10000 dvd Suc t then Suc t + 10000 else next_due t)"
  unfolding next_due_def by (rule next_gen_Suc) simp

lemma interval_run: "interval (run e t) = (if live e t then Some (next_due t) else None)"
proof (induction t)
  case 0
  have "interval (useEffect e app_init) = Some 10000"
    by (simp add: phase_defs basic_defs Let_def app_init_def)
  then show ?case by (simp add: tick_poll live_0 next_due_0)
next
  case (Suc t)
  show ?case
    by (simp add: tick_poll Suc live_Suc next_due_hit next_due_Suc)
qed

lemma poll_times_run:
  "poll_times (run e t) = filter (\<lambda>t'. 10000 dvd t' \<and> live e t') [1..<Suc t]"
proof (induction t)
  case 0
  have "poll_times (useEffect e app_init) = [] \<and> interval (useEffect e app_init) = Some 10000"
    by (simp add: poll_times_def phase_defs basic_defs Let_def app_init_def)
  then show ?case by (simp add: tick_poll)
next
  case (Suc t)
  have "[1..<Suc (Suc t)] = [1..<Suc t] @ [Suc t]" by simp
  then show ?case
    by (simp add: tick_poll Suc interval_run live_Suc next_due_hit del: upt_Suc)
qed

subsection \<open>Runs in which \<^verbatim>\<open>init\<close> makes no status query\<close>

lemma settle_phase_none: "\<forall>p\<in>set (pending s). fst p \<noteq> t \<Longrightarrow> settle_phase t s = s"
proof -
  assume a: "\<forall>p\<in>set (pending s). fst p \<noteq> t"
  then have "filter (\<lambda>p. fst p = t) (pending s) = []"
    and "filter (\<lambda>p. fst p \<noteq> t) (pending s) = pending s"
    by (auto simp add: filter_empty_conv filter_id_conv)
  then show ?thesis by (simp add: settle_phase_def)
qed

lemma no_init_query_tick: "no_init_query e s \<Longrightarrow> no_init_query e (tick e t s)"
  by (rule tick_preserves [where Q = "no_init_query e"])
    (auto simp add: no_init_query_def never_races_def phase_defs basic_defs Let_def
      split: all_splits)

lemma no_init_query_run:
  "no_init_query e (run e t) \<Longrightarrow> no_init_query e (run e (t + k))"
  by (induction k) (simp_all add: no_init_query_tick)

lemma no_init_query_start:
  "(window_defined e \<and> \<not> tauri e) \<or> (case listeners e of Resolves d \<Rightarrow> False | _ \<Rightarrow> True) \<Longrightarrow>
   no_init_query e (useEffect e app_init)"
  by (auto simp add: no_init_query_def never_races_def phase_defs basic_defs Let_def
      app_init_def split: all_splits)

lemma no_init_query_always:
  "(window_defined e \<and> \<not> tauri e) \<or> (case listeners e of Resolves d \<Rightarrow> False | _ \<Rightarrow> True) \<Longrightarrow>
   no_init_query e (run e t)"
  using no_init_query_run [of e 0 t] by (simp add: no_init_query_tick no_init_query_start)

lemma untouched_tick:
  assumes "never_races e s" and "untouched s" and "interval s \<noteq> Some t"
  shows "untouched (tick e t s)"
proof (rule tick_chain [where
      ?P0.0 = "\<lambda>s. never_races e s \<and> untouched s \<and> interval s \<noteq> Some t"
      and ?P1.0 = "\<lambda>s. never_races e s \<and> untouched s \<and> interval s \<noteq> Some t"
      and ?P2.0 = "\<lambda>s. never_races e s \<and> untouched s \<and> interval s \<noteq> Some t"
      and ?P3.0 = "\<lambda>s. never_races e s \<and> untouched s"
      and ?P4.0 = "\<lambda>s. never_races e s \<and> untouched s"
      and ?P5.0 = "\<lambda>s. untouched s"
      and ?P6.0 = "\<lambda>s. untouched s"])
  show "\<And>s. untouched s \<Longrightarrow> untouched (settle_phase t s)"
    by (simp add: settle_phase_none untouched_def)
qed (use assms in \<open>auto simp add: untouched_def never_races_def phase_defs basic_defs Let_def
      render_def showConnectionWarning_def split: all_splits\<close>)

lemma first_period: "t < 10000 \<Longrightarrow> next_due t = 10000"
  by (simp add: next_due_def)

lemma untouched_run:
  assumes "(window_defined e \<and> \<not> tauri e) \<or>
      (case listeners e of Resolves d \<Rightarrow> False | _ \<Rightarrow> True)"
  shows "t < 10000 \<Longrightarrow> untouched (run e t)"
proof (induction t)
  case 0
  have "untouched (useEffect e app_init) \<and> interval (useEffect e app_init) = Some 10000"
    by (auto simp add: untouched_def phase_defs basic_defs Let_def app_init_def
        split: all_splits)
  moreover have "never_races e (useEffect e app_init)"
    using no_init_query_start [OF assms] by (simp add: no_init_query_def)
  ultimately show ?case by (simp add: untouched_tick)
next
  case (Suc t)
  then have u: "untouched (run e t)" by simp
  have n: "never_races e (run e t)"
    using no_init_query_always [OF assms, of t] by (simp add: no_init_query_def)
  have "interval (run e t) \<noteq> Some (Suc t)"
    using Suc.prems by (simp add: interval_run first_period)
  with u n show ?case by (simp add: untouched_tick)
qed

lemma timer_gone_tick: "forceShowUI s = None \<Longrightarrow> forceShowUI (tick e t s) = None"
  by (rule tick_preserves [where Q = "\<lambda>s. forceShowUI s = None"])
    (simp_all add: phase_defs basic_defs Let_def split: all_splits)

lemma timer_gone_run: "forceShowUI (run e t) = None \<Longrightarrow> forceShowUI (run e (t + k)) = None"
  by (induction k) (simp_all add: timer_gone_tick)

lemma returned_tick: "init_pc s = Returned \<Longrightarrow> init_pc (tick e t s) = Returned"
  by (rule tick_preserves [where Q = "\<lambda>s. init_pc s = Returned"])
    (simp_all add: phase_defs basic_defs Let_def split: all_splits)

lemma returned_run: "init_pc (run e t) = Returned \<Longrightarrow> init_pc (run e (t + k)) = Returned"
  by (induction k) (simp_all add: returned_tick)

lemmas tick_defs = tick_def settle_phase_def phase_defs basic_defs Let_def render_def
  showConnectionWarning_def

lemma poll_seen: "(t \<in> set (poll_times s)) = ((t, CheckNexusStatus FromPoll) \<in> set (trace s))"
  by (force simp add: poll_times_def)

lemma absent_start:
  assumes "window_defined e" and "\<not> tauri e"
  shows "\<not> isInitializing (useEffect e app_init) \<and> forceShowUI (useEffect e app_init) = None \<and>
    init_pc (useEffect e app_init) = Returned \<and>
    status_timeout (useEffect e app_init) = None \<and>
    (0, SetIsInitializing False) \<in> set (trace (useEffect e app_init)) \<and>
    (0, ClearTimeout ForceShowUI) \<in> set (trace (useEffect e app_init))"
  using assms by (simp add: phase_defs basic_defs Let_def app_init_def)

lemma absent_run:
  assumes "window_defined e" and "\<not> tauri e"
  shows "\<not> isInitializing (run e t) \<and> forceShowUI (run e t) = None \<and>
    init_pc (run e t) = Returned \<and>
    (0, SetIsInitializing False) \<in> set (trace (run e t)) \<and>
    (0, ClearTimeout ForceShowUI) \<in> set (trace (run e t))"
proof -
  note s = absent_start [OF assms]
  have "\<not> isInitializing (run e 0)" using s by (simp add: ready_tick)
  then have 1: "\<not> isInitializing (run e t)" by (rule ready_from) simp
  have "forceShowUI (run e 0) = None" using s by (simp add: timer_gone_tick)
  then have 2: "forceShowUI (run e t) = None" using timer_gone_run [of e 0 t] by simp
  have "init_pc (run e 0) = Returned" using s by (simp add: returned_tick)
  then have 3: "init_pc (run e t) = Returned" using returned_run [of e 0 t] by simp
  have "(0, SetIsInitializing False) \<in> set (trace (run e 0))" using s by (simp add: trace_tick)
  then have 4: "(0, SetIsInitializing False) \<in> set (trace (run e t))"
    by (rule trace_from) simp
  have "(0, ClearTimeout ForceShowUI) \<in> set (trace (run e 0))" using s by (simp add: trace_tick)
  then have 5: "(0, ClearTimeout ForceShowUI) \<in> set (trace (run e t))"
    by (rule trace_from) simp
  from 1 2 3 4 5 show ?thesis by simp
qed

lemma first_poll:
  "10000 \<le> t \<Longrightarrow> live e 10000 \<Longrightarrow> (10000, CheckNexusStatus FromPoll) \<in> set (trace (run e t))"
proof -
  assume "10000 \<le> t" and "live e 10000"
  then have "10000 \<in> set (poll_times (run e t))"
    unfolding poll_times_run by (simp del: upt_Suc)
  then show ?thesis by (simp add: poll_seen)
qed

lemma poll_rejected_at_once:
  assumes "interval s = Some t" and "teardown e \<noteq> Some t" and "pending s = []"
    and "init_pc s = Returned" and "forceShowUI s = None" and "\<not> clicked e t"
    and "status_query e FromPoll t = QRejects 0 AsError"
  shows "backend (tick e t s) = Error"
  using assms by (simp add: tick_defs split: if_splits)

subsection \<open>Listener registration\<close>

lemma awaiting_tick:
  "init_pc s = AwaitListeners \<Longrightarrow> listeners e \<noteq> Resolves t \<Longrightarrow> listeners e \<noteq> Rejects t \<Longrightarrow>
   init_pc (tick e t s) = AwaitListeners"
  by (rule tick_preserves [where Q = "\<lambda>s. init_pc s = AwaitListeners"])
    (simp_all add: phase_defs basic_defs Let_def split: all_splits)

lemma awaiting_start:
  "\<not> (window_defined e \<and> \<not> tauri e) \<Longrightarrow> listeners e \<noteq> Throws \<Longrightarrow>
   init_pc (useEffect e app_init) = AwaitListeners"
  by (simp add: phase_defs basic_defs Let_def app_init_def)

lemma awaiting_run:
  assumes "\<not> (window_defined e \<and> \<not> tauri e)"
    and "listeners e = Resolves L \<or> listeners e = Rejects L"
  shows "t < L \<Longrightarrow> init_pc (run e t) = AwaitListeners"
proof (induction t)
  case 0
  then show ?case using assms by (auto simp add: awaiting_tick awaiting_start)
next
  case (Suc t)
  then show ?case using assms(2) by (auto simp add: awaiting_tick)
qed

lemma caught_tick:
  assumes "init_pc s = AwaitListeners" and "listeners e = Rejects t"
  shows "\<not> isInitializing (tick e t s) \<and> init_pc (tick e t s) = Returned \<and>
    (t, Console Err ''[App] Failed to initialize:'') \<in> set (trace (tick e t s)) \<and>
    (t, ClearTimeout ForceShowUI) \<in> set (trace (tick e t s)) \<and>
    (t, SetIsInitializing False) \<in> set (trace (tick e t s))"
  (is "?R (tick e t s)")
proof (rule tick_chain [where
      ?P0.0 = "\<lambda>s. init_pc s = AwaitListeners" and ?P1.0 = "\<lambda>s. init_pc s = AwaitListeners"
      and ?P2.0 = "\<lambda>s. init_pc s = AwaitListeners" and ?P3.0 = "\<lambda>s. init_pc s = AwaitListeners"
      and ?P4.0 = "\<lambda>s. init_pc s = AwaitListeners" and ?P5.0 = ?R and ?P6.0 = ?R])
  show "\<And>s. ?R s \<Longrightarrow> ?R (settle_phase t s)"
    by (rule settle_phase_preserves)
      (simp_all add: phase_defs basic_defs Let_def split: all_splits)
qed (use assms in \<open>simp_all add: phase_defs basic_defs Let_def split: all_splits\<close>)

lemma thrown_start:
  assumes "\<not> (window_defined e \<and> \<not> tauri e)" and "listeners e = Throws"
  shows "\<not> isInitializing (run e 0) \<and> init_pc (run e 0) = Returned \<and>
    (0, Console Err ''[App] Failed to initialize:'') \<in> set (trace (run e 0)) \<and>
    (0, ClearTimeout ForceShowUI) \<in> set (trace (run e 0)) \<and>
    (0, SetIsInitializing False) \<in> set (trace (run e 0))"
proof -
  have "\<not> isInitializing (useEffect e app_init) \<and> init_pc (useEffect e app_init) = Returned \<and>
    (0, Console Err ''[App] Failed to initialize:'') \<in> set (trace (useEffect e app_init)) \<and>
    (0, ClearTimeout ForceShowUI) \<in> set (trace (useEffect e app_init)) \<and>
    (0, SetIsInitializing False) \<in> set (trace (useEffect e app_init))"
    using assms by (simp add: phase_defs basic_defs Let_def app_init_def)
  then show ?thesis by (simp add: ready_tick returned_tick trace_tick)
qed

lemma caught_run:
  assumes "\<not> (window_defined e \<and> \<not> tauri e)" and "listeners e = Rejects L"
  shows "\<not> isInitializing (run e L) \<and> init_pc (run e L) = Returned \<and>
    (L, Console Err ''[App] Failed to initialize:'') \<in> set (trace (run e L)) \<and>
    (L, ClearTimeout ForceShowUI) \<in> set (trace (run e L)) \<and>
    (L, SetIsInitializing False) \<in> set (trace (run e L))"
proof (cases L)
  case 0
  have "init_pc (useEffect e app_init) = AwaitListeners"
    using assms by (simp add: awaiting_start)
  then show ?thesis using caught_tick [of "useEffect e app_init" e 0] assms(2) 0 by simp
next
  case (Suc t)
  have "init_pc (run e t) = AwaitListeners"
    using awaiting_run [OF assms(1), of L t] assms(2) Suc by simp
  then show ?thesis using caught_tick [of "run e t" e L] assms(2) Suc by simp
qed

subsection \<open>The race of the status check against its timeout\<close>















subsection \<open>Teardown\<close>

lemma interval_armed: "(0, SetInterval 10000) \<in> set (trace (run e t))"
proof -
  have "(0, SetInterval 10000) \<in> set (trace (useEffect e app_init))"
    by (simp add: phase_defs basic_defs Let_def app_init_def)
  then have "(0, SetInterval 10000) \<in> set (trace (run e 0))" by (simp add: trace_tick)
  then show ?thesis by (rule trace_from) simp
qed

lemma poll_after_deadline:
  assumes "u \<in> set (poll_times (run e t))"
  shows "3000 < u \<and> \<not> isInitializing (run e (u - 1)) \<and> live e u"
proof -
  from assms have "10000 dvd u" and "1 \<le> u" and l: "live e u"
    unfolding poll_times_run by (simp_all del: upt_Suc)
  then have "10000 \<le> u" by (simp add: dvd_imp_le)
  then show ?thesis using l ready_after_deadline [of "u - 1" e] by simp
qed

lemma flip_run:
  assumes "isInitializing (run e t)" and "\<not> isInitializing (run e (Suc t))"
  shows "(Suc t, SetIsInitializing False) \<in> set (trace (run e (Suc t)))"
  using flip_tick [of "run e t" "Suc t" e] assms by simp

lemma setter_after:
  assumes "isInitializing (run e d)"
  shows "d < 3000 \<and> forceShowUI (run e d) = Some 3000 \<and>
    (\<exists>u. d < u \<and> u \<le> 3000 \<and> (u, SetIsInitializing False) \<in> set (trace (run e u)))"
proof -
  obtain t0 where t0: "t0 \<le> 3000" "\<And>t. isInitializing (run e t) = (t < t0)"
    using ready_threshold [of e] by blast
  from assms have d: "d < t0" using t0(2) by simp
  then obtain p where p: "t0 = Suc p" by (cases t0) auto
  have "isInitializing (run e p)" and "\<not> isInitializing (run e (Suc p))"
    using t0(2) [of p] t0(2) [of "Suc p"] p by blast+
  then have "(Suc p, SetIsInitializing False) \<in> set (trace (run e (Suc p)))"
    by (rule flip_run)
  then have "(t0, SetIsInitializing False) \<in> set (trace (run e t0))"
    unfolding p .
  with d t0(1) have "\<exists>u. d < u \<and> u \<le> 3000 \<and> (u, SetIsInitializing False) \<in> set (trace (run e u))"
    by blast
  moreover have "forceShowUI (run e d) = Some 3000"
    using armed_run [of e d] assms by (simp add: armed_def)
  ultimately show ?thesis using d t0(1) by simp
qed

subsection \<open>Rejections\<close>

lemma handled_tick:
  "UnhandledRejection FromInit \<notin> snd ` set (trace s) \<and>
   UnhandledRejection FromPoll \<notin> snd ` set (trace s) \<Longrightarrow>
   UnhandledRejection FromInit \<notin> snd ` set (trace (tick e t s)) \<and>
   UnhandledRejection FromPoll \<notin> snd ` set (trace (tick e t s))"
  by (rule tick_preserves [where Q = "\<lambda>s. UnhandledRejection FromInit \<notin> snd ` set (trace s) \<and>
      UnhandledRejection FromPoll \<notin> snd ` set (trace s)"])
    (simp_all add: phase_defs basic_defs Let_def split: all_splits)

lemma handled_run:
  "UnhandledRejection FromInit \<notin> snd ` set (trace (run e t)) \<and>
   UnhandledRejection FromPoll \<notin> snd ` set (trace (run e t))"
proof (induction t)
  case 0
  have "UnhandledRejection FromInit \<notin> snd ` set (trace (useEffect e app_init)) \<and>
      UnhandledRejection FromPoll \<notin> snd ` set (trace (useEffect e app_init))"
    by (simp add: phase_defs basic_defs Let_def app_init_def)
  then show ?case using handled_tick [of "useEffect e app_init" e 0] by simp
next
  case (Suc t)
  then show ?case using handled_tick [of "run e t" e "Suc t"] by simp
qed

lemma poll_rejection_logged:
  assumes "interval s = Some t" and "teardown e \<noteq> Some t" and "pending s = []"
    and "init_pc s = Returned" and "forceShowUI s = None" and "\<not> clicked e t"
    and "status_query e FromPoll t = QRejects 0 AsError"
  shows "(t, Console Err ''[App] Status check failed:'') \<in> set (trace (tick e t s))"
  using assms by (simp add: tick_defs split: if_splits)

section \<open>The claims\<close>

text \<open>
  C1. In every run the component starts in the Initializing state (\<open>isInitializing\<close> is
  \<open>True\<close>) and there is one time \<open>t0\<close>, at most 3000 ms, such that it is Initializing
  exactly before \<open>t0\<close> and Ready from \<open>t0\<close> on: one transition, none back, within the
  deadline. The state setter is never called with \<open>True\<close>.
\<close>

theorem readiness_once:
  "isInitializing app_init \<and>
   (\<exists>t0\<le>3000. \<forall>t. isInitializing (run e t) = (t < t0)) \<and>
   SetIsInitializing True \<notin> snd ` set (trace (run e t'))"
  using ready_threshold [of e] setter_false_run [of e t'] by (simp add: app_init_def)

text \<open>
  An instance: the run in which listener registration never settles.
\<close>

theorem readiness_once_witness:
  "isInitializing app_init \<and>
   (\<exists>t0\<le>3000. \<forall>t. isInitializing (run env_never t) = (t < t0)) \<and>
   SetIsInitializing True \<notin> snd ` set (trace (run env_never 3000))"
  by (rule readiness_once)

text \<open>
  C2. The effect arms the timer \<^verbatim>\<open>forceShowUI\<close> with 3000 ms; the timer stays pending and
  due at 3000 for as long as the component is Initializing; when it is due its callback
  sets Ready whatever the rest of the state is; hence in every run, also when \<^verbatim>\<open>init\<close>
  never completes, the component is Ready from 3000 ms on.
\<close>

theorem deadline_backstop:
  "(0, SetTimeout ForceShowUI 3000) \<in> set (trace (run e t)) \<and>
   (isInitializing (run e t) \<longrightarrow> forceShowUI (run e t) = Some 3000) \<and>
   (forceShowUI s = Some t' \<longrightarrow> \<not> isInitializing (deadline_phase t' s)) \<and>
   (3000 \<le> t \<longrightarrow> \<not> isInitializing (run e t))"
proof -
  have "(0, SetTimeout ForceShowUI 3000) \<in> set (trace (useEffect e app_init))"
    by (simp add: phase_defs basic_defs Let_def app_init_def)
  then have "(0, SetTimeout ForceShowUI 3000) \<in> set (trace (run e 0))"
    by (simp add: trace_tick)
  then have "(0, SetTimeout ForceShowUI 3000) \<in> set (trace (run e t))"
    by (rule trace_from) simp
  moreover have "isInitializing (run e t) \<longrightarrow> forceShowUI (run e t) = Some 3000"
    using armed_run [of e t] by (simp add: armed_def)
  moreover have "forceShowUI s = Some t' \<longrightarrow> \<not> isInitializing (deadline_phase t' s)"
    by (simp add: deadline_phase_def basic_defs)
  ultimately show ?thesis by (simp add: ready_after_deadline)
qed

text \<open>
  An instance: listener registration never settles, so \<^verbatim>\<open>init\<close> never completes.
\<close>

theorem deadline_backstop_witness:
  "listeners env_never = Never \<and>
   (0, SetTimeout ForceShowUI 3000) \<in> set (trace (run env_never 0)) \<and>
   isInitializing (run env_never 0) \<and> forceShowUI (run env_never 0) = Some 3000 \<and>
   forceShowUI (useEffect env_never app_init) = Some 3000 \<and>
   \<not> isInitializing (deadline_phase 3000 (useEffect env_never app_init)) \<and>
   (3000::nat) \<le> 3000 \<and> \<not> isInitializing (run env_never 3000)"
proof -
  have a: "forceShowUI (useEffect env_never app_init) = Some 3000"
    by (simp add: env_never_def phase_defs basic_defs Let_def app_init_def)
  have b: "listeners env_never = Never" by (simp add: env_never_def)
  show ?thesis
    using deadline_backstop [of env_never 0 "useEffect env_never app_init" 3000]
      deadline_backstop [of env_never 3000 "useEffect env_never app_init" 3000]
      run_0_env_never a b
    by simp
qed

text \<open>
  C3, as amended. When \<^verbatim>\<open>window\<close> is defined and \<^verbatim>\<open>window.__TAURI__\<close> is falsy, the
  component is Ready from time 0 on, the deadline timer is cleared, \<^verbatim>\<open>init\<close> has
  returned and never queries the status. The status stays Unknown and no query at all is
  made before 10000 ms. The polling interval is armed whatever the capability flag is:
  unless the effect is torn down by then, it queries the status at 10000 ms.
\<close>

theorem bridge_absent_ready_at_once:
  assumes "window_defined e" and "\<not> tauri e"
  shows "\<not> isInitializing (run e t) \<and> forceShowUI (run e t) = None \<and>
    init_pc (run e t) = Returned \<and>
    (0, SetIsInitializing False) \<in> set (trace (run e t)) \<and>
    (0, ClearTimeout ForceShowUI) \<in> set (trace (run e t)) \<and>
    CheckNexusStatus FromInit \<notin> snd ` set (trace (run e t)) \<and>
    (t < 10000 \<longrightarrow>
       backend (run e t) = Unknown \<and> (\<forall>c. CheckNexusStatus c \<notin> snd ` set (trace (run e t)))) \<and>
    (10000 \<le> t \<and> live e 10000 \<longrightarrow> (10000, CheckNexusStatus FromPoll) \<in> set (trace (run e t)))"
proof -
  have a: "(window_defined e \<and> \<not> tauri e) \<or>
      (case listeners e of Resolves d \<Rightarrow> False | _ \<Rightarrow> True)"
    using assms by simp
  have "CheckNexusStatus FromInit \<notin> snd ` set (trace (run e t))"
    using no_init_query_always [OF a, of t] by (simp add: no_init_query_def)
  moreover have "t < 10000 \<longrightarrow>
       backend (run e t) = Unknown \<and> (\<forall>c. CheckNexusStatus c \<notin> snd ` set (trace (run e t)))"
    using untouched_run [OF a, of t] by (simp add: untouched_def)
  ultimately show ?thesis
    using absent_run [OF assms, of t] first_poll [of t e] by simp
qed

text \<open>
  An instance: the bridge is absent and the effect is never torn down.
\<close>

theorem bridge_absent_ready_at_once_witness:
  "window_defined env_absent \<and> \<not> tauri env_absent \<and>
   \<not> isInitializing (run env_absent 0) \<and> forceShowUI (run env_absent 0) = None \<and>
   (5::nat) < 10000 \<and> backend (run env_absent 5) = Unknown \<and>
   CheckNexusStatus FromPoll \<notin> snd ` set (trace (run env_absent 5)) \<and>
   (10000::nat) \<le> 10000 \<and> live env_absent 10000 \<and>
   (10000, CheckNexusStatus FromPoll) \<in> set (trace (run env_absent 10000))"
proof -
  have h: "window_defined env_absent" "\<not> tauri env_absent"
    by (simp_all add: env_absent_def)
  have l: "live env_absent 10000" by (simp add: live_def env_absent_def)
  show ?thesis
    using bridge_absent_ready_at_once [OF h, of 0] bridge_absent_ready_at_once [OF h, of 5]
      bridge_absent_ready_at_once [OF h, of 10000] h l
    by simp
qed

text \<open>
  C3 as stated fails: with the bridge absent, the interval callback queries the status at
  10000 ms, and when that query is rejected the status is Error, not Unknown.
\<close>

theorem bridge_absent_counterexample:
  "window_defined env_absent \<and> \<not> tauri env_absent \<and>
   (10000, CheckNexusStatus FromPoll) \<in> set (trace (run env_absent 10000)) \<and>
   backend (run env_absent 10000) = Error"
proof -
  have w: "window_defined env_absent" and n: "\<not> tauri env_absent"
    by (simp_all add: env_absent_def)
  have a: "(window_defined env_absent \<and> \<not> tauri env_absent) \<or>
      (case listeners env_absent of Resolves d \<Rightarrow> False | _ \<Rightarrow> True)"
    by (simp add: env_absent_def)
  have l: "live env_absent t" for t by (simp add: live_def env_absent_def)
  have p: "(10000, CheckNexusStatus FromPoll) \<in> set (trace (run env_absent 10000))"
    by (rule first_poll) (simp_all add: l)
  have r: "run env_absent 10000 = tick env_absent 10000 (run env_absent 9999)"
    using run.simps(2) [of env_absent 9999] by simp
  have "backend (tick env_absent 10000 (run env_absent 9999)) = Error"
  proof (rule poll_rejected_at_once)
    show "interval (run env_absent 9999) = Some 10000"
      by (simp add: interval_run l first_period)
    show "pending (run env_absent 9999) = []"
      using untouched_run [OF a, of 9999] by (simp add: untouched_def)
    show "init_pc (run env_absent 9999) = Returned" "forceShowUI (run env_absent 9999) = None"
      using absent_run [OF w n, of 9999] by simp_all
  qed (simp_all add: env_absent_def)
  with w n p r show ?thesis by simp
qed




text \<open>
  C5, as amended. When \<^verbatim>\<open>window.__TAURI__\<close> is truthy and listener registration throws or
  is rejected, the outer \<^verbatim>\<open>catch\<close> logs the error at the time of the failure and the
  \<^verbatim>\<open>finally\<close> block clears the deadline timer and sets Ready at that same time;
  \<^verbatim>\<open>init\<close> has returned and never makes the initial status query. The handler leaves the
  status as it is; the status is Unknown, and no query has been made, before 10000 ms.
\<close>

theorem listener_failure_skips_check:
  assumes "tauri e" and "listeners e = Throws \<or> listeners e = Rejects d"
  shows "(failed_at (listeners e), Console Err ''[App] Failed to initialize:'')
       \<in> set (trace (run e (failed_at (listeners e)))) \<and>
    (failed_at (listeners e), ClearTimeout ForceShowUI)
       \<in> set (trace (run e (failed_at (listeners e)))) \<and>
    (failed_at (listeners e), SetIsInitializing False)
       \<in> set (trace (run e (failed_at (listeners e)))) \<and>
    \<not> isInitializing (run e (failed_at (listeners e))) \<and>
    init_pc (run e (failed_at (listeners e))) = Returned \<and>
    CheckNexusStatus FromInit \<notin> snd ` set (trace (run e t)) \<and>
    backend (init_catch t' s) = backend s \<and>
    (t < 10000 \<longrightarrow>
       backend (run e t) = Unknown \<and> (\<forall>c. CheckNexusStatus c \<notin> snd ` set (trace (run e t))))"
proof -
  have p: "\<not> (window_defined e \<and> \<not> tauri e)" using assms(1) by simp
  have a: "(window_defined e \<and> \<not> tauri e) \<or>
      (case listeners e of Resolves d \<Rightarrow> False | _ \<Rightarrow> True)"
    using assms(2) by auto
  have 1: "CheckNexusStatus FromInit \<notin> snd ` set (trace (run e t))"
    using no_init_query_always [OF a, of t] by (simp add: no_init_query_def)
  have 2: "t < 10000 \<longrightarrow>
       backend (run e t) = Unknown \<and> (\<forall>c. CheckNexusStatus c \<notin> snd ` set (trace (run e t)))"
    using untouched_run [OF a, of t] by (simp add: untouched_def)
  have 3: "backend (init_catch t' s) = backend s" by (simp add: basic_defs)
  from assms(2) show ?thesis
  proof
    assume "listeners e = Throws"
    then show ?thesis using thrown_start [OF p] 1 2 3 by (simp add: failed_at_def)
  next
    assume "listeners e = Rejects d"
    then show ?thesis using caught_run [OF p, of d] 1 2 3 by (simp add: failed_at_def)
  qed
qed

text \<open>
  Two instances: registration throws; registration is rejected after 700 ms.
\<close>

theorem listener_failure_skips_check_witness:
  "tauri env_throws \<and> listeners env_throws = Throws \<and>
   (0, Console Err ''[App] Failed to initialize:'') \<in> set (trace (run env_throws 0)) \<and>
   \<not> isInitializing (run env_throws 0) \<and>
   CheckNexusStatus FromInit \<notin> snd ` set (trace (run env_throws 20000)) \<and>
   (0::nat) < 10000 \<and> backend (run env_throws 0) = Unknown \<and>
   tauri env_rejects \<and> listeners env_rejects = Rejects 700 \<and>
   (700, Console Err ''[App] Failed to initialize:'') \<in> set (trace (run env_rejects 700)) \<and>
   \<not> isInitializing (run env_rejects 700) \<and>
   (700::nat) < 10000 \<and> backend (run env_rejects 700) = Unknown"
proof -
  have a: "tauri env_throws" "listeners env_throws = Throws \<or> listeners env_throws = Rejects 0"
    by (simp_all add: env_throws_def)
  have b: "tauri env_rejects"
    "listeners env_rejects = Throws \<or> listeners env_rejects = Rejects 700"
    by (simp_all add: env_rejects_def)
  have c: "listeners env_throws = Throws" "listeners env_rejects = Rejects 700"
    by (simp_all add: env_throws_def env_rejects_def)
  show ?thesis
    using listener_failure_skips_check [OF a, where t = 0]
      listener_failure_skips_check [OF a, where t = 20000]
      listener_failure_skips_check [OF b, where t = 700] a(1) b(1) c
    by (simp add: failed_at_def)
qed

text \<open>
  C5 as stated fails: when registration throws, everything \<^verbatim>\<open>App\<close> does in the first
  millisecond is listed below, and \<^verbatim>\<open>init\<close> has returned. Ready is set and no status
  check was made.
\<close>

theorem listener_failure_counterexample:
  "tauri env_throws \<and> listeners env_throws = Throws \<and>
   init_pc (run env_throws 0) = Returned \<and>
   map snd (trace (run env_throws 0)) =
     [Console Log ''[App] useEffect triggered'',
      SetTimeout ForceShowUI 3000,
      Console Log ''[App] Starting initialization...'',
      Console Log ''[App] Tauri runtime detected'',
      InitializeTauriListeners,
      Console Err ''[App] Failed to initialize:'',
      Console Log ''[App] Initialization complete, showing UI'',
      ClearTimeout ForceShowUI,
      SetIsInitializing False,
      SetInterval 10000]"
  by (simp add: env_throws_def app_init_def tick_defs)

text \<open>
  C6. Rejections of the queries made by \<^verbatim>\<open>init\<close> and by the interval callback are
  never unhandled: in the run \<open>env_retry\<close> the inner \<^verbatim>\<open>catch\<close> of \<^verbatim>\<open>init\<close> logs the
  rejection of the initial query, and in the run \<open>env_absent\<close> the \<^verbatim>\<open>.catch\<close> of line 89
  logs the rejection of the first poll. The handler of the Retry button (line 123)
  attaches nothing to the promise: in the run \<open>env_retry\<close> the banner is shown at 0 ms,
  the user clicks Retry at 1 ms, the query is rejected, and the rejection is unhandled.
\<close>

theorem retry_rejection_unhandled:
  "UnhandledRejection FromInit \<notin> snd ` set (trace (run e t)) \<and>
   UnhandledRejection FromPoll \<notin> snd ` set (trace (run e t)) \<and>
   (0, CheckNexusStatus FromInit) \<in> set (trace (run env_retry 0)) \<and>
   (0, Console Warn ''[App] Status check failed or timed out:'') \<in> set (trace (run env_retry 0)) \<and>
   \<not> isInitializing (run env_retry 0) \<and> backend (run env_retry 0) = Error \<and>
   ConnectionWarning \<in> set (render (run env_retry 0)) \<and>
   clicked env_retry 1 \<and> status_query env_retry FromRetry 1 = QRejects 0 AsError \<and>
   (1, CheckNexusStatus FromRetry) \<in> set (trace (run env_retry 1)) \<and>
   (1, UnhandledRejection FromRetry) \<in> set (trace (run env_retry 1)) \<and>
   (10000, CheckNexusStatus FromPoll) \<in> set (trace (run env_absent 10000)) \<and>
   (10000, Console Err ''[App] Status check failed:'') \<in> set (trace (run env_absent 10000))"
proof -
  have "run env_retry 1 = tick env_retry 1 (run env_retry 0)"
    using run.simps(2) [of env_retry 0] by simp
  then have a: "(0, CheckNexusStatus FromInit) \<in> set (trace (run env_retry 0)) \<and>
   (0, Console Warn ''[App] Status check failed or timed out:'') \<in> set (trace (run env_retry 0)) \<and>
   \<not> isInitializing (run env_retry 0) \<and> backend (run env_retry 0) = Error \<and>
   ConnectionWarning \<in> set (render (run env_retry 0)) \<and>
   clicked env_retry 1 \<and> status_query env_retry FromRetry 1 = QRejects 0 AsError \<and>
   (1, CheckNexusStatus FromRetry) \<in> set (trace (run env_retry 1)) \<and>
   (1, UnhandledRejection FromRetry) \<in> set (trace (run env_retry 1))"
    by (simp add: env_retry_def app_init_def tick_defs)
  have w: "window_defined env_absent" and n: "\<not> tauri env_absent"
    by (simp_all add: env_absent_def)
  have c: "(window_defined env_absent \<and> \<not> tauri env_absent) \<or>
      (case listeners env_absent of Resolves d \<Rightarrow> False | _ \<Rightarrow> True)"
    by (simp add: env_absent_def)
  have l: "live env_absent u" for u by (simp add: live_def env_absent_def)
  have p: "(10000, CheckNexusStatus FromPoll) \<in> set (trace (run env_absent 10000))"
    by (rule first_poll) (simp_all add: l)
  have r: "run env_absent 10000 = tick env_absent 10000 (run env_absent 9999)"
    using run.simps(2) [of env_absent 9999] by simp
  have "(10000, Console Err ''[App] Status check failed:'')
      \<in> set (trace (tick env_absent 10000 (run env_absent 9999)))"
  proof (rule poll_rejection_logged)
    show "interval (run env_absent 9999) = Some 10000"
      by (simp add: interval_run l first_period)
    show "pending (run env_absent 9999) = []"
      using untouched_run [OF c, of 9999] by (simp add: untouched_def)
    show "init_pc (run env_absent 9999) = Returned" "forceShowUI (run env_absent 9999) = None"
      using absent_run [OF w n, of 9999] by simp_all
  qed (simp_all add: env_absent_def)
  with a p r show ?thesis using handled_run [of e t] by simp
qed

text \<open>
  C7. The effect arms the interval at time 0 with a period of 10000 ms. The interval
  callback has called \<^verbatim>\<open>checkNexusStatus\<close>, up to any time \<open>t\<close>, exactly at the positive
  multiples of 10000 ms that come before the teardown, once each and in order. Every
  such call comes after the 3000 ms deadline, when the component was Ready already. While
  the effect is not torn down the interval stays armed for the next multiple of 10000 ms;
  once it is torn down, the interval is cleared and no call is made at or after the
  time of the teardown.
\<close>

theorem poll_schedule:
  "(0, SetInterval 10000) \<in> set (trace (run e t)) \<and>
   poll_times (run e t) = filter (\<lambda>u. 10000 dvd u \<and> live e u) [1..<Suc t] \<and>
   (\<forall>u\<in>set (poll_times (run e t)). 3000 < u \<and> \<not> isInitializing (run e (u - 1))) \<and>
   (live e t \<longrightarrow> interval (run e t) = Some (10000 * (t div 10000 + 1))) \<and>
   (teardown e = Some d \<longrightarrow>
      (\<forall>u\<in>set (poll_times (run e t)). u < d) \<and> (d \<le> t \<longrightarrow> interval (run e t) = None))"
proof -
  have "\<forall>u\<in>set (poll_times (run e t)). 3000 < u \<and> \<not> isInitializing (run e (u - 1))"
    using poll_after_deadline by blast
  moreover have "teardown e = Some d \<longrightarrow> (\<forall>u\<in>set (poll_times (run e t)). u < d)"
    using poll_after_deadline [of _ e t] by (auto simp add: live_def)
  moreover have "teardown e = Some d \<longrightarrow> d \<le> t \<longrightarrow> interval (run e t) = None"
    by (simp add: interval_run live_def)
  moreover have "live e t \<longrightarrow> interval (run e t) = Some (10000 * (t div 10000 + 1))"
    by (simp add: interval_run next_due_def)
  ultimately show ?thesis
    using poll_times_run [of e t] interval_armed [of e t] by blast
qed

text \<open>
  An instance: the effect is torn down at 25000 ms; the polls are at 10000 and 20000 ms.
\<close>

theorem poll_schedule_witness:
  "teardown env_torn = Some 25000 \<and>
   poll_times (run env_torn 30000) =
     filter (\<lambda>u. 10000 dvd u \<and> live env_torn u) [1..<Suc 30000] \<and>
   10000 \<in> set (poll_times (run env_torn 30000)) \<and>
   20000 \<in> set (poll_times (run env_torn 30000)) \<and>
   30000 \<notin> set (poll_times (run env_torn 30000)) \<and>
   \<not> isInitializing (run env_torn (10000 - 1)) \<and>
   (10000::nat) < 25000 \<and>
   (25000::nat) \<le> 30000 \<and> interval (run env_torn 30000) = None \<and>
   live env_torn 10000 \<and> interval (run env_torn 10000) = Some 20000"
proof -
  have td: "teardown env_torn = Some 25000" by (simp add: env_torn_def)
  have l: "live env_torn u = (u < 25000)" for u by (simp add: live_def env_torn_def)
  note a = poll_schedule [of env_torn 30000 25000]
  note b = poll_schedule [of env_torn 10000 25000]
  have p: "poll_times (run env_torn 30000) =
     filter (\<lambda>u. 10000 dvd u \<and> live env_torn u) [1..<Suc 30000]"
    using a by blast
  have m1: "10000 \<in> set (poll_times (run env_torn 30000))"
    unfolding p by (simp add: l del: upt_Suc)
  have m2: "20000 \<in> set (poll_times (run env_torn 30000))"
    unfolding p by (simp add: l del: upt_Suc)
  have m3: "30000 \<notin> set (poll_times (run env_torn 30000))"
    unfolding p by (simp add: l del: upt_Suc)
  have r: "\<not> isInitializing (run env_torn (10000 - 1))" using a m1 by blast
  have i1: "interval (run env_torn 30000) = None" using a td by simp
  have i2: "interval (run env_torn 10000) = Some 20000" using b l [of 10000] by simp
  show ?thesis using td p m1 m2 m3 r i1 i2 l [of 10000] by simp
qed

text \<open>
  C8. The bootstrap looks the root element up once. When it is there, it renders into it
  exactly once and reports no error; when it is not, it renders nothing, reports the
  error, and that report is the last thing it does.
\<close>

theorem bootstrap_once:
  "concat (map lookups (main_tsx doc)) = [''root''] \<and>
   (doc ''root'' = Some el \<longrightarrow>
      concat (map rendered (main_tsx doc)) = [el] \<and>
      concat (map diagnostics (main_tsx doc)) = []) \<and>
   (doc ''root'' = None \<longrightarrow>
      concat (map rendered (main_tsx doc)) = [] \<and>
      concat (map diagnostics (main_tsx doc)) = [''[main.tsx] Root element not found!''] \<and>
      last (main_tsx doc) = BootConsole Err ''[main.tsx] Root element not found!'')"
  by (cases "doc ''root''") (simp_all add: main_tsx_def)

text \<open>
  Two instances: a page with a root element, and a page without one.
\<close>

theorem bootstrap_once_witness:
  "(\<lambda>i. if i = ''root'' then Some (7::nat) else None) ''root'' = Some 7 \<and>
   concat (map rendered (main_tsx (\<lambda>i. if i = ''root'' then Some (7::nat) else None))) = [7] \<and>
   (\<lambda>i. None :: nat option) ''root'' = None \<and>
   concat (map rendered (main_tsx (\<lambda>i. None :: nat option))) = [] \<and>
   concat (map diagnostics (main_tsx (\<lambda>i. None :: nat option))) =
     [''[main.tsx] Root element not found!'']"
  using bootstrap_once [of "\<lambda>i. if i = ''root'' then Some (7::nat) else None" 7]
    bootstrap_once [of "\<lambda>i. None :: nat option" 7]
  by simp

text \<open>
  C9. Once Ready, the warning banner is rendered if and only if the backend status is
  Disconnected or Error, and the main layout is rendered after it in either case: the
  view is the banner followed by the main layout, or the main layout alone. A click on
  the banner's Retry button calls \<^verbatim>\<open>checkNexusStatus\<close>.
\<close>

theorem banner_iff_disconnected:
  "\<not> isInitializing s \<Longrightarrow>
   (ConnectionWarning \<in> set (render s)) = (backend s = Disconnected \<or> backend s = Error) \<and>
   render s = (if backend s = Disconnected \<or> backend s = Error
               then [ConnectionWarning, MainLayout] else [MainLayout]) \<and>
   (clicked e t \<and> ConnectionWarning \<in> set (render s) \<longrightarrow>
      (t, CheckNexusStatus FromRetry) \<in> set (trace (click_phase e t s)))"
  by (auto simp add: render_def showConnectionWarning_def click_phase_def basic_defs Let_def
      split: all_splits)

text \<open>
  Two instances: the state at 0 ms when the initial query is rejected at once (Error), and
  the state at 0 ms when the bridge is absent (Unknown).
\<close>

theorem banner_iff_disconnected_witness:
  "\<not> isInitializing (run env_retry 0) \<and> backend (run env_retry 0) = Error \<and>
   render (run env_retry 0) = [ConnectionWarning, MainLayout] \<and>
   clicked env_retry 1 \<and>
   (1, CheckNexusStatus FromRetry) \<in> set (trace (click_phase env_retry 1 (run env_retry 0))) \<and>
   \<not> isInitializing (run env_absent 0) \<and> backend (run env_absent 0) = Unknown \<and>
   render (run env_absent 0) = [MainLayout]"
proof -
  have a: "\<not> isInitializing (run env_retry 0) \<and> backend (run env_retry 0) = Error \<and>
      clicked env_retry 1"
    by (simp add: env_retry_def app_init_def tick_defs)
  have b: "\<not> isInitializing (run env_absent 0) \<and> backend (run env_absent 0) = Unknown"
    by (simp add: env_absent_def app_init_def tick_defs)
  show ?thesis
    using banner_iff_disconnected [of "run env_retry 0" env_retry 1]
      banner_iff_disconnected [of "run env_absent 0" env_absent 0] a b
    by simp
qed

text \<open>
  C10. The cleanup function changes nothing but the interval, which it clears; from the
  teardown on the interval is not armed. When the teardown comes while the component
  is Initializing, the timer \<^verbatim>\<open>forceShowUI\<close> is still pending after it, and the state
  setter is called at some later time, at most 3000 ms. When listener registration is
  rejected after the teardown, the \<^verbatim>\<open>finally\<close> block of \<^verbatim>\<open>init\<close> still runs then: it
  clears the timer and calls the state setter.
\<close>

theorem teardown_cancels_only_interval:
  "(cleanup t' s)\<lparr>interval := interval s, trace := trace s\<rparr> = s \<and>
   interval (cleanup t' s) = None \<and>
   (teardown e = Some d \<and> d \<le> t \<longrightarrow> interval (run e t) = None) \<and>
   (teardown e = Some d \<and> isInitializing (run e d) \<longrightarrow>
      d < 3000 \<and> forceShowUI (run e d) = Some 3000 \<and>
      (\<exists>u. d < u \<and> u \<le> 3000 \<and> (u, SetIsInitializing False) \<in> set (trace (run e u)))) \<and>
   (teardown e = Some d \<and> d < L \<and> tauri e \<and> listeners e = Rejects L \<longrightarrow>
      (L, ClearTimeout ForceShowUI) \<in> set (trace (run e L)) \<and>
      (L, SetIsInitializing False) \<in> set (trace (run e L)))"
proof -
  have 1: "(cleanup t' s)\<lparr>interval := interval s, trace := trace s\<rparr> = s \<and>
      interval (cleanup t' s) = None"
    by (simp add: basic_defs)
  have 2: "teardown e = Some d \<and> d \<le> t \<longrightarrow> interval (run e t) = None"
    by (simp add: interval_run live_def)
  have 3: "tauri e \<and> listeners e = Rejects L \<longrightarrow>
      (L, ClearTimeout ForceShowUI) \<in> set (trace (run e L)) \<and>
      (L, SetIsInitializing False) \<in> set (trace (run e L))"
    using caught_run [of e L] by simp
  show ?thesis using 1 2 3 setter_after [of e d] by blast
qed

text \<open>
  Two instances, both torn down right after the effect ran: registration never settles;
  registration is rejected after 700 ms.
\<close>

theorem teardown_cancels_only_interval_witness:
  "teardown env_strict = Some 0 \<and> isInitializing (run env_strict 0) \<and>
   forceShowUI (run env_strict 0) = Some 3000 \<and> interval (run env_strict 0) = None \<and>
   (\<exists>u. 0 < u \<and> u \<le> 3000 \<and> (u, SetIsInitializing False) \<in> set (trace (run env_strict u))) \<and>
   teardown env_rejects = Some 0 \<and> (0::nat) < 700 \<and> tauri env_rejects \<and>
   listeners env_rejects = Rejects 700 \<and>
   (700, ClearTimeout ForceShowUI) \<in> set (trace (run env_rejects 700)) \<and>
   (700, SetIsInitializing False) \<in> set (trace (run env_rejects 700))"
proof -
  have a: "teardown env_strict = Some 0 \<and> isInitializing (run env_strict 0)"
    by (simp add: env_strict_def app_init_def tick_defs)
  have b: "teardown env_rejects = Some 0 \<and> tauri env_rejects \<and>
      listeners env_rejects = Rejects 700"
    by (simp add: env_rejects_def)
  show ?thesis
    using teardown_cancels_only_interval
        [where e = env_strict and d = 0 and t = 0 and L = 700 and s = app_init and t' = 0]
      teardown_cancels_only_interval
        [where e = env_rejects and d = 0 and t = 700 and L = 700 and s = app_init and t' = 0]
      a b
    by simp
qed

end
